theory Spec2Isabelle
  imports Complex_Main "HOL-Library.Multiset"
begin

section \<open>Risk classifier (conjunction\_detector.py, assess\_collision\_risk)\<close>

text \<open>
  The argument of \<open>assess_collision_risk\<close> is a Python float. A float is either a finite
  value, which is a real number, or one of the three non-finite values. Comparing a float
  with an integer literal by \<open><\<close> is exact on finite values; it is false for NaN and for
  plus infinity, and true for minus infinity.
\<close>

datatype pyfloat = Finite real | PosInf | NegInf | NaN

fun float_lt :: "pyfloat \<Rightarrow> real \<Rightarrow> bool" where
  "float_lt (Finite x) c = (x < c)"
| "float_lt PosInf c = False"
| "float_lt NegInf c = True"
| "float_lt NaN c = False"

definition assess_collision_risk :: "pyfloat \<Rightarrow> string \<times> int \<times> string" where
  "assess_collision_risk distance_km =
     (if float_lt distance_km 1 then (''CRITICAL'', 95, ''Immediate collision risk'')
      else if float_lt distance_km 5 then (''HIGH'', 80, ''Very close approach - high risk'')
      else if float_lt distance_km 10 then (''ELEVATED'', 60, ''Close approach - monitor closely'')
      else if float_lt distance_km 25 then (''MODERATE'', 40, ''Notable approach'')
      else if float_lt distance_km 50 then (''LOW'', 20, ''Distant approach'')
      else (''MINIMAL'', 5, ''Safe distance''))"

definition risk_level :: "pyfloat \<Rightarrow> string" where
  "risk_level d = fst (assess_collision_risk d)"

definition risk_score :: "pyfloat \<Rightarrow> int" where
  "risk_score d = fst (snd (assess_collision_risk d))"

section \<open>External collaborators and data (orbit\_propagator.py)\<close>

text \<open>
  The SGP4 library is not part of the repository. The two calls the code makes into it are
  parameters of the model: \<open>twoline2rv\<close> parses the two element lines and may raise, and
  \<open>sgp4\<close> stands for \<open>jday\<close> followed by \<open>satellite.sgp4\<close>, returning the error code,
  the position and the velocity at an absolute time. The reading of the clock
  (\<open>datetime.utcnow()\<close>) is the third parameter.

  A \<open>datetime\<close> is a count of microseconds, a \<open>timedelta\<close> a difference of such counts;
  the range limit of Python's datetime (year 9999) is not modelled. Coordinates and
  distances are real numbers: the rounding error of floating-point arithmetic is not
  modelled. The durations and step widths are Python ints, as every caller in app.py passes
  them; on ints of magnitude below \<open>2 ^ 53\<close> the expression \<open>int(a / b)\<close> is the quotient
  truncated towards zero.
\<close>

datatype py_error = ZeroDivisionError | ValueError

type_synonym datetime = int

type_synonym vec3 = "real \<times> real \<times> real"

record 's world =
  twoline2rv :: "string \<Rightarrow> string \<Rightarrow> py_error + 's"
  sgp4 :: "'s \<Rightarrow> datetime \<Rightarrow> int \<times> vec3 \<times> vec3"
  utcnow :: datetime

text \<open>
  The element record is the dictionary built by tle\_fetcher.py, which always carries the
  keys name, line1 and line2; the key catalog is read with a default.
\<close>

record tle_data =
  name :: string
  catalog :: "string option"
  line1 :: string
  line2 :: string

record pos_data =
  position :: vec3
  velocity :: vec3
  altitude_km :: real
  time :: datetime

record trajectory =
  traj_name :: string
  traj_catalog :: string
  positions :: "vec3 list"
  times :: "datetime list"

definition EARTH_RADIUS_KM :: real where
  "EARTH_RADIUS_KM = 6371"

definition timedelta_minutes :: "int \<Rightarrow> int" where
  "timedelta_minutes m = 60000000 * m"

definition trunc_div :: "int \<Rightarrow> int \<Rightarrow> int" where
  "trunc_div a b = sgn a * sgn b * (\<bar>a\<bar> div \<bar>b\<bar>)"

text \<open>\<open>steps = int((duration_hours * 60) / step_minutes)\<close>, the first line of both loops.\<close>

definition steps_of :: "int \<Rightarrow> int \<Rightarrow> py_error + int" where
  "steps_of duration_hours step_minutes =
     (if step_minutes = 0 then Inl ZeroDivisionError
      else Inr (trunc_div (duration_hours * 60) step_minutes))"

text \<open>\<open>start_time + timedelta(minutes=step * step_minutes)\<close>, the time of one loop round.\<close>

definition time_of_step :: "datetime \<Rightarrow> int \<Rightarrow> nat \<Rightarrow> datetime" where
  "time_of_step start_time step_minutes step =
     start_time + timedelta_minutes (int step * step_minutes)"

definition default_catalog :: "tle_data \<Rightarrow> string" where
  "default_catalog tle = (case catalog tle of None \<Rightarrow> ''unknown'' | Some c \<Rightarrow> c)"

definition norm3 :: "vec3 \<Rightarrow> real" where
  "norm3 p = (case p of (x, y, z) \<Rightarrow> sqrt (0 + x\<^sup>2 + y\<^sup>2 + z\<^sup>2))"

definition sample_at :: "'s world \<Rightarrow> 's \<Rightarrow> datetime \<Rightarrow> (vec3 \<times> datetime) option" where
  "sample_at w satellite current_time =
     (case sgp4 w satellite current_time of
        (error, pos, vel) \<Rightarrow>
          if error = 0 then Some (pos, current_time) else None)"

definition propagate_satellite ::
  "'s world \<Rightarrow> tle_data \<Rightarrow> datetime option \<Rightarrow> int \<Rightarrow> int \<Rightarrow> py_error + trajectory" where
  "propagate_satellite w tle start_time duration_hours step_minutes =
     (case twoline2rv w (line1 tle) (line2 tle) of
        Inl e \<Rightarrow> Inl e
      | Inr satellite \<Rightarrow>
          (let start = (case start_time of None \<Rightarrow> utcnow w | Some t \<Rightarrow> t) in
           case steps_of duration_hours step_minutes of
             Inl e \<Rightarrow> Inl e
           | Inr steps \<Rightarrow>
               (let samples = List.map_filter
                      (\<lambda>i. sample_at w satellite (time_of_step start step_minutes i))
                      [0..<nat steps]
                in Inr \<lparr>traj_name = name tle, traj_catalog = default_catalog tle,
                         positions = map fst samples, times = map snd samples\<rparr>)))"

definition get_current_position ::
  "'s world \<Rightarrow> tle_data \<Rightarrow> datetime option \<Rightarrow> py_error + pos_data option" where
  "get_current_position w tle at_time =
     (let t0 = (case at_time of None \<Rightarrow> utcnow w | Some t \<Rightarrow> t) in
      case twoline2rv w (line1 tle) (line2 tle) of
        Inl e \<Rightarrow> Inl e
      | Inr satellite \<Rightarrow>
          (case sgp4 w satellite t0 of
             (error, pos, vel) \<Rightarrow>
               if error = 0
               then Inr (Some \<lparr>position = pos, velocity = vel,
                                altitude_km = norm3 pos - EARTH_RADIUS_KM, time = t0\<rparr>)
               else Inr None))"

section \<open>Conjunction screener (conjunction\_detector.py, find\_conjunctions)\<close>

record sat_position =
  sp_name :: string
  sp_catalog :: string
  sp_position :: vec3
  sp_altitude_km :: real
  sp_time :: datetime

record event =
  object1 :: string
  object2 :: string
  distance_km :: real
  ev_time :: datetime
  time_from_now :: int
  altitude1_km :: real
  altitude2_km :: real

definition calculate_distance :: "vec3 \<Rightarrow> vec3 \<Rightarrow> real" where
  "calculate_distance pos1 pos2 =
     (case pos1 of (a1, a2, a3) \<Rightarrow> case pos2 of (b1, b2, b3) \<Rightarrow>
        sqrt (0 + (a1 - b1)\<^sup>2 + (a2 - b2)\<^sup>2 + (a3 - b3)\<^sup>2))"

text \<open>
  \<open>round(x, ndigits)\<close> on a numpy float: scale by a power of ten, round to the nearest
  integer with ties to the even one, scale back.
\<close>

definition rint :: "real \<Rightarrow> int" where
  "rint x =
     (let f = \<lfloor>x\<rfloor>; r = x - of_int f
      in if r < 1/2 then f else if 1/2 < r then f + 1 else if even f then f else f + 1)"

definition py_round :: "real \<Rightarrow> nat \<Rightarrow> real" where
  "py_round x ndigits = of_int (rint (x * 10 ^ ndigits)) / 10 ^ ndigits"

text \<open>
  The body of the \<open>try\<close> block: an exception of \<open>get_current_position\<close> and a \<open>None\<close>
  result both leave the object out of this round.
\<close>

definition sat_position_of :: "'s world \<Rightarrow> datetime \<Rightarrow> tle_data \<Rightarrow> sat_position option" where
  "sat_position_of w current_time sat =
     (case get_current_position w sat (Some current_time) of
        Inl e \<Rightarrow> None
      | Inr None \<Rightarrow> None
      | Inr (Some pd) \<Rightarrow>
          Some \<lparr>sp_name = name sat, sp_catalog = default_catalog sat,
                sp_position = position pd, sp_altitude_km = altitude_km pd,
                sp_time = current_time\<rparr>)"

definition positions_at :: "'s world \<Rightarrow> tle_data list \<Rightarrow> datetime \<Rightarrow> sat_position list" where
  "positions_at w satellites current_time =
     List.map_filter (sat_position_of w current_time) satellites"

text \<open>\<open>for i in range(n): for j in range(i + 1, n)\<close>, in the order the loops visit.\<close>

definition index_pairs :: "nat \<Rightarrow> (nat \<times> nat) list" where
  "index_pairs n = concat (map (\<lambda>i. map (\<lambda>j. (i, j)) [Suc i..<n]) [0..<n])"

definition pair_event ::
  "real \<Rightarrow> datetime \<Rightarrow> datetime \<Rightarrow> sat_position list \<Rightarrow> nat \<times> nat \<Rightarrow> event option" where
  "pair_event threshold_km start_time current_time ps ij =
     (case ij of (i, j) \<Rightarrow>
        (let dist = calculate_distance (sp_position (ps ! i)) (sp_position (ps ! j))
         in if dist < threshold_km
            then Some \<lparr>object1 = sp_name (ps ! i), object2 = sp_name (ps ! j),
                       distance_km = py_round dist 2, ev_time = current_time,
                       time_from_now = current_time - start_time,
                       altitude1_km = py_round (sp_altitude_km (ps ! i)) 1,
                       altitude2_km = py_round (sp_altitude_km (ps ! j)) 1\<rparr>
            else None))"

definition step_events ::
  "real \<Rightarrow> datetime \<Rightarrow> datetime \<Rightarrow> sat_position list \<Rightarrow> event list" where
  "step_events threshold_km start_time current_time ps =
     List.map_filter (pair_event threshold_km start_time current_time ps)
       (index_pairs (length ps))"

text \<open>The list \<open>conjunctions\<close> when the outer loop has ended, before it is sorted.\<close>

definition scan_events ::
  "'s world \<Rightarrow> tle_data list \<Rightarrow> real \<Rightarrow> int \<Rightarrow> int \<Rightarrow> event list" where
  "scan_events w satellites threshold_km step_minutes steps =
     concat (map
       (\<lambda>step. let current_time = time_of_step (utcnow w) step_minutes step
               in step_events threshold_km (utcnow w) current_time
                    (positions_at w satellites current_time))
       [0..<nat steps])"

definition find_conjunctions ::
  "'s world \<Rightarrow> tle_data list \<Rightarrow> real \<Rightarrow> int \<Rightarrow> int \<Rightarrow> py_error + event list" where
  "find_conjunctions w satellites threshold_km duration_hours step_minutes =
     (case steps_of duration_hours step_minutes of
        Inl e \<Rightarrow> Inl e
      | Inr steps \<Rightarrow>
          Inr (sort_key distance_km
                 (scan_events w satellites threshold_km step_minutes steps)))"

text \<open>
  The times visited by \<open>for step in range(steps)\<close>: the loop header that
  \<open>propagate_satellite\<close> and \<open>find_conjunctions\<close> have in common.
\<close>

definition time_grid :: "datetime \<Rightarrow> int \<Rightarrow> int \<Rightarrow> py_error + datetime list" where
  "time_grid start_time duration_hours step_minutes =
     (case steps_of duration_hours step_minutes of
        Inl e \<Rightarrow> Inl e
      | Inr steps \<Rightarrow> Inr (map (time_of_step start_time step_minutes) [0..<nat steps]))"


section \<open>Orders on events\<close>

text \<open>
  The order the specification words for the output: ascending distance, then ascending
  event time, then the two participant names compared as Python compares strings (by code
  point, a proper prefix first), the first name before the second.
\<close>

fun str_le :: "string \<Rightarrow> string \<Rightarrow> bool" where
  "str_le [] ys = True"
| "str_le (x # xs) [] = False"
| "str_le (x # xs) (y # ys) = ((of_char x :: nat) < of_char y \<or> (x = y \<and> str_le xs ys))"

definition ident_le :: "string \<times> string \<Rightarrow> string \<times> string \<Rightarrow> bool" where
  "ident_le p q =
     (if fst p = fst q then str_le (snd p) (snd q) else str_le (fst p) (fst q))"

definition spec_event_le :: "event \<Rightarrow> event \<Rightarrow> bool" where
  "spec_event_le a b =
     (distance_km a < distance_km b
      \<or> (distance_km a = distance_km b
          \<and> (ev_time a < ev_time b
              \<or> (ev_time a = ev_time b
                  \<and> ident_le (object1 a, object2 a) (object1 b, object2 b)))))"

text \<open>The first two keys alone: ascending distance, then ascending event time.\<close>

definition dist_time_le :: "event \<Rightarrow> event \<Rightarrow> bool" where
  "dist_time_le a b =
     (distance_km a < distance_km b
      \<or> (distance_km a = distance_km b \<and> ev_time a \<le> ev_time b))"


section \<open>Sample inputs\<close>

text \<open>
  A small world for the concrete evaluations below: the parser rejects an empty first
  line, and the propagator places the objects on the x axis, by the first element line.
\<close>

definition demo_world :: "string world" where
  "demo_world =
     \<lparr>twoline2rv = (\<lambda>l1 l2. if l1 = [] then Inl ValueError else Inr l1),
      sgp4 = (\<lambda>s t.
        if s = ''A'' then (0, (0, 0, 0), (0, 0, 0))
        else if s = ''B'' then (0, (if t = 0 then 123/10 else 4, 0, 0), (0, 0, 0))
        else if s = ''C'' then (0, (if t = 0 then - 4 else - 100, 0, 0), (0, 0, 0))
        else if s = ''D'' then (0, (9996/1000, 0, 0), (0, 0, 0))
        else (1, (0, 0, 0), (0, 0, 0))),
      utcnow = 0\<rparr>"

definition demo_sat :: "string \<Rightarrow> string \<Rightarrow> tle_data" where
  "demo_sat n l = \<lparr>name = n, catalog = None, line1 = l, line2 = []\<rparr>"

section \<open>Theorems about the classifier\<close>

text \<open>
  C6. On every finite distance the classifier returns a tier and a score given by the
  upper-exclusive breakpoints 1, 5, 10, 25, 50; the score never increases when the distance
  increases; and the four sample points of the specification land in CRITICAL, ELEVATED,
  LOW and MINIMAL.
\<close>

theorem classify_step_function:
  "(risk_level (Finite d), risk_score (Finite d)) =
     (if d < 1 then (''CRITICAL'', 95)
      else if d < 5 then (''HIGH'', 80)
      else if d < 10 then (''ELEVATED'', 60)
      else if d < 25 then (''MODERATE'', 40)
      else if d < 50 then (''LOW'', 20)
      else (''MINIMAL'', 5))
   \<and> (d1 \<le> d2 \<longrightarrow> risk_score (Finite d2) \<le> risk_score (Finite d1))
   \<and> risk_level (Finite (1/2)) = ''CRITICAL''
   \<and> risk_level (Finite 5) = ''ELEVATED''
   \<and> risk_level (Finite 5) \<noteq> ''HIGH''
   \<and> risk_level (Finite (49999/1000)) = ''LOW''
   \<and> risk_level (Finite 50) = ''MINIMAL''"
  by (simp add: risk_level_def risk_score_def assess_collision_risk_def)

theorem classify_step_function_witness:
  "(3::real) \<le> 7 \<and> risk_score (Finite 7) \<le> risk_score (Finite 3)
   \<and> risk_score (Finite 3) = 80 \<and> risk_score (Finite 7) = 60"
  using classify_step_function [of 3 3 7] classify_step_function [of 7 3 7]
  by simp

text \<open>
  C7 (as it holds on the code). The classifier has no rejection path: every negative
  distance, minus infinity included, is classified CRITICAL with score 95, and plus infinity
  and NaN are classified MINIMAL with score 5.
\<close>

theorem classify_out_of_contract:
  "(d < 0 \<longrightarrow> assess_collision_risk (Finite d) = (''CRITICAL'', 95, ''Immediate collision risk''))
   \<and> assess_collision_risk NegInf = (''CRITICAL'', 95, ''Immediate collision risk'')
   \<and> assess_collision_risk PosInf = (''MINIMAL'', 5, ''Safe distance'')
   \<and> assess_collision_risk NaN = (''MINIMAL'', 5, ''Safe distance'')"
  by (simp add: assess_collision_risk_def)

theorem classify_out_of_contract_witness:
  "(- 3 :: real) < 0
   \<and> assess_collision_risk (Finite (- 3)) = (''CRITICAL'', 95, ''Immediate collision risk'')"
  using classify_out_of_contract [of "- 3"] by simp

text \<open>The claim as worded fails at the distance \<open>-1\<close>, which is classified, not rejected.\<close>

theorem classify_negative_counterexample:
  "assess_collision_risk (Finite (- 1)) = (''CRITICAL'', 95, ''Immediate collision risk'')"
  by (simp add: assess_collision_risk_def)

section \<open>Distances, rounding and the loops\<close>

lemma calculate_distance_nonneg: "0 \<le> calculate_distance p q"
  by (cases p, cases q) (simp add: calculate_distance_def)

lemma calculate_distance_same: "calculate_distance p p = 0"
  by (cases p) (simp add: calculate_distance_def)

lemma rint_error: "\<bar>of_int (rint x) - x\<bar> \<le> 1/2"
  unfolding rint_def Let_def by (auto simp: abs_le_iff)

lemma rint_of_int: "rint (of_int k) = k"
  by (simp add: rint_def)

lemma py_round_zero: "py_round 0 n = 0"
  by (simp add: py_round_def rint_def)

lemma py_round_error: "\<bar>py_round x n - x\<bar> \<le> 1 / (2 * 10 ^ n)"
proof -
  have p: "(0::real) < 10 ^ n" by simp
  define y where "y = x * 10 ^ n"
  have x: "x = y / 10 ^ n" using p by (simp add: y_def)
  have "\<bar>of_int (rint y) - y\<bar> \<le> 1/2" by (rule rint_error)
  then have "\<bar>of_int (rint y) - y\<bar> / 10 ^ n \<le> (1/2) / 10 ^ n"
    using p by (rule_tac divide_right_mono) simp_all
  moreover have "\<bar>of_int (rint y) - y\<bar> / 10 ^ n = \<bar>of_int (rint y) / 10 ^ n - y / 10 ^ n\<bar>"
    using p by (simp add: diff_divide_distrib [symmetric])
  ultimately have "\<bar>of_int (rint y) / 10 ^ n - y / 10 ^ n\<bar> \<le> (1/2) / 10 ^ n" by simp
  then show ?thesis
    unfolding py_round_def y_def [symmetric] x by simp
qed

lemma set_map_filter: "set (List.map_filter f xs) = {y. \<exists>x\<in>set xs. f x = Some y}"
  by (induction xs) (auto split: option.splits)

lemma set_index_pairs: "set (index_pairs n) = {(i, j). i < j \<and> j < n}"
  by (force simp: index_pairs_def)

lemma distinct_tagged_concat:
  "distinct xs \<Longrightarrow> (\<And>i. i \<in> set xs \<Longrightarrow> distinct (f i)) \<Longrightarrow>
   distinct (concat (map (\<lambda>i. map (Pair i) (f i)) xs))"
  by (induction xs) (auto simp: distinct_map inj_on_def)

lemma distinct_index_pairs: "distinct (index_pairs n)"
  unfolding index_pairs_def by (rule distinct_tagged_concat) simp_all

lemma set_step_events:
  "e \<in> set (step_events thr st t ps) \<longleftrightarrow>
     (\<exists>i j. i < j \<and> j < length ps \<and> pair_event thr st t ps (i, j) = Some e)"
  by (auto simp: step_events_def set_map_filter set_index_pairs)

lemma set_scan_events:
  "e \<in> set (scan_events w sats thr sm steps) \<longleftrightarrow>
     (\<exists>k < nat steps. e \<in> set (step_events thr (utcnow w) (time_of_step (utcnow w) sm k)
                                   (positions_at w sats (time_of_step (utcnow w) sm k))))"
  by (auto simp: scan_events_def Let_def)

section \<open>Objects that fail to propagate\<close>

lemma map_filter_append:
  "List.map_filter f (xs @ ys) = List.map_filter f xs @ List.map_filter f ys"
  by (simp add: List.map_filter_def)

lemma positions_at_append:
  "positions_at w (xs @ ys) t = positions_at w xs t @ positions_at w ys t"
  by (simp add: positions_at_def map_filter_append)

lemma positions_at_Cons:
  "positions_at w (x # xs) t =
     (case sat_position_of w t x of None \<Rightarrow> positions_at w xs t
      | Some p \<Rightarrow> p # positions_at w xs t)"
  unfolding positions_at_def by simp


lemma sat_position_of_Some:
  "get_current_position w sat (Some t) = Inr (Some pd) \<Longrightarrow>
   sat_position_of w t sat =
     Some \<lparr>sp_name = name sat, sp_catalog = default_catalog sat, sp_position = position pd,
           sp_altitude_km = altitude_km pd, sp_time = t\<rparr>"
  by (simp add: sat_position_of_def)

lemma get_current_position_lines:
  "line1 s1 = line1 s2 \<Longrightarrow> line2 s1 = line2 s2 \<Longrightarrow>
   get_current_position w s1 t = get_current_position w s2 t"
  by (simp add: get_current_position_def)



section \<open>Identical objects\<close>

lemma pair_event_identical:
  assumes "0 < thr" "i < length ps" "j < length ps"
    "sp_position (ps ! i) = sp_position (ps ! j)"
  shows "pair_event thr st t ps (i, j) =
     Some \<lparr>object1 = sp_name (ps ! i), object2 = sp_name (ps ! j), distance_km = 0,
           ev_time = t, time_from_now = t - st,
           altitude1_km = py_round (sp_altitude_km (ps ! i)) 1,
           altitude2_km = py_round (sp_altitude_km (ps ! j)) 1\<rparr>"
  using assms by (simp add: pair_event_def calculate_distance_same py_round_zero)

text \<open>
  C1 (as it holds on the code). With a threshold greater than zero, two objects of the
  list that carry the same element lines give, at every step of the grid at which they
  propagate successfully, an event of distance 0 naming the two objects in list order,
  and the classifier maps that distance to CRITICAL with score 95. With the threshold 0
  the comparison \<open>dist < threshold_km\<close> never holds and the run returns no event.
\<close>

theorem identical_objects_positive_threshold:
  assumes thr: "0 < thr"
    and lines: "line1 s1 = line1 s2" "line2 s1 = line2 s2"
    and steps: "steps_of d sm = Inr steps" "k < nat steps"
    and ok: "get_current_position w s1 (Some (time_of_step (utcnow w) sm k)) = Inr (Some pd)"
  shows "\<exists>out. find_conjunctions w (pre @ s1 # mid @ s2 # post) thr d sm = Inr out
           \<and> (\<exists>e\<in>set out. object1 e = name s1 \<and> object2 e = name s2
                 \<and> ev_time e = time_of_step (utcnow w) sm k \<and> distance_km e = 0
                 \<and> assess_collision_risk (Finite (distance_km e)) =
                     (''CRITICAL'', 95, ''Immediate collision risk''))"
proof -
  define t where "t = time_of_step (utcnow w) sm k"
  define sats where "sats = pre @ s1 # mid @ s2 # post"
  define p1 where "p1 = \<lparr>sp_name = name s1, sp_catalog = default_catalog s1,
     sp_position = position pd, sp_altitude_km = altitude_km pd, sp_time = t\<rparr>"
  define p2 where "p2 = \<lparr>sp_name = name s2, sp_catalog = default_catalog s2,
     sp_position = position pd, sp_altitude_km = altitude_km pd, sp_time = t\<rparr>"
  define ps where "ps = positions_at w sats t"
  define i where "i = length (positions_at w pre t)"
  define j where "j = Suc (i + length (positions_at w mid t))"
  have ok2: "get_current_position w s2 (Some t) = Inr (Some pd)"
    using ok get_current_position_lines [OF lines, of w "Some t"] by (simp add: t_def)
  have ps: "ps = positions_at w pre t @ p1 # positions_at w mid t @ p2 # positions_at w post t"
    using sat_position_of_Some [OF ok2] sat_position_of_Some [OF ok [folded t_def]]
    by (simp add: ps_def sats_def positions_at_append positions_at_Cons p1_def p2_def)
  have i: "ps ! i = p1" by (simp add: ps i_def)
  have j: "ps ! j = p2"
    by (simp add: ps j_def i_def nth_append)
  have len: "i < j" "j < length ps" by (simp_all add: ps j_def i_def)
  define e where "e = \<lparr>object1 = name s1, object2 = name s2, distance_km = 0,
           ev_time = t, time_from_now = t - utcnow w,
           altitude1_km = py_round (altitude_km pd) 1,
           altitude2_km = py_round (altitude_km pd) 1\<rparr>"
  have "pair_event thr (utcnow w) t ps (i, j) = Some e"
    using pair_event_identical [of thr i ps j "utcnow w" t] thr len
    by (simp add: i j p1_def p2_def e_def)
  then have "e \<in> set (step_events thr (utcnow w) t ps)"
    using len by (auto simp: set_step_events)
  then have "e \<in> set (scan_events w sats thr sm steps)"
    using steps(2) unfolding set_scan_events ps_def t_def by blast
  moreover have "find_conjunctions w sats thr d sm =
      Inr (sort_key distance_km (scan_events w sats thr sm steps))"
    using steps(1) by (simp add: find_conjunctions_def)
  ultimately show ?thesis
    unfolding sats_def [symmetric] t_def [symmetric]
    by (intro exI [of _ "sort_key distance_km (scan_events w sats thr sm steps)"])
       (auto simp: e_def assess_collision_risk_def intro!: bexI [of _ e])
qed

lemma pair_event_zero_threshold: "thr \<le> 0 \<Longrightarrow> pair_event thr st t ps ij = None"
  using calculate_distance_nonneg [of "sp_position (ps ! fst ij)" "sp_position (ps ! snd ij)"]
  by (cases ij) (simp add: pair_event_def)

lemma map_filter_all_None: "(\<And>x. f x = None) \<Longrightarrow> List.map_filter f xs = []"
  by (induction xs) simp_all

lemma zero_threshold_no_events:
  "thr \<le> 0 \<Longrightarrow> scan_events w sats thr sm steps = []"
  by (simp add: scan_events_def step_events_def map_filter_all_None pair_event_zero_threshold)

section \<open>Evaluation on the sample inputs\<close>

lemma calculate_distance_x: "calculate_distance (a, 0, 0) (b, 0, 0) = \<bar>a - b\<bar>"
  by (simp add: calculate_distance_def)

lemma norm3_x: "norm3 (a, 0, 0) = \<bar>a\<bar>"
  by (simp add: norm3_def)

lemma index_pairs_2: "index_pairs (Suc (Suc 0)) = [(0, 1)]"
  by (simp add: index_pairs_def upt_rec)

lemma index_pairs_3: "index_pairs (Suc (Suc (Suc 0))) = [(0, 1), (0, 2), (1, 2)]"
  by (simp add: index_pairs_def upt_rec numeral_2_eq_2)

lemma steps_of_examples:
  "steps_of 1 15 = Inr 4" "steps_of 1 7 = Inr 8" "steps_of 1 0 = Inl ZeroDivisionError"
  "steps_of (- 1) (- 15) = Inr 4" "steps_of 1 60 = Inr 1" "steps_of 1 30 = Inr 2"
  by (simp_all add: steps_of_def trunc_div_def)

lemmas demo_simps = demo_world_def demo_sat_def get_current_position_def sat_position_of_def
  positions_at_def default_catalog_def norm3_x calculate_distance_x EARTH_RADIUS_KM_def
  time_of_step_def timedelta_minutes_def

theorem identical_objects_zero_threshold_counterexample:
  "find_conjunctions demo_world [demo_sat ''ISS'' ''A'', demo_sat ''ISS 2'' ''A''] 0 1 15 = Inr []
   \<and> get_current_position demo_world (demo_sat ''ISS'' ''A'') (Some (time_of_step 0 15 0)) =
       Inr (Some \<lparr>position = (0, 0, 0), velocity = (0, 0, 0), altitude_km = - 6371, time = 0\<rparr>)
   \<and> get_current_position demo_world (demo_sat ''ISS 2'' ''A'') (Some (time_of_step 0 15 0)) =
       Inr (Some \<lparr>position = (0, 0, 0), velocity = (0, 0, 0), altitude_km = - 6371, time = 0\<rparr>)"
  by (simp add: find_conjunctions_def steps_of_examples zero_threshold_no_events demo_simps)

theorem identical_objects_positive_threshold_witness:
  "(0::real) < 50 \<and> steps_of 1 15 = Inr 4 \<and> (2::nat) < nat 4
   \<and> (\<exists>out. find_conjunctions demo_world [demo_sat ''ISS'' ''A'', demo_sat ''ISS 2'' ''A''] 50 1 15
               = Inr out
         \<and> (\<exists>e\<in>set out. object1 e = ''ISS'' \<and> object2 e = ''ISS 2''
               \<and> ev_time e = 1800000000 \<and> distance_km e = 0))"
proof -
  have ok: "get_current_position demo_world (demo_sat ''ISS'' ''A'')
       (Some (time_of_step (utcnow demo_world) 15 2)) =
     Inr (Some \<lparr>position = (0, 0, 0), velocity = (0, 0, 0), altitude_km = - 6371,
                 time = 1800000000\<rparr>)"
    by (simp add: demo_simps)
  have lines: "line1 (demo_sat ''ISS'' ''A'') = line1 (demo_sat ''ISS 2'' ''A'')"
    "line2 (demo_sat ''ISS'' ''A'') = line2 (demo_sat ''ISS 2'' ''A'')"
    by (simp_all add: demo_sat_def)
  have t: "time_of_step (utcnow demo_world) 15 2 = 1800000000"
    by (simp add: demo_simps)
  have n: "name (demo_sat ''ISS'' ''A'') = ''ISS''" "name (demo_sat ''ISS 2'' ''A'') = ''ISS 2''"
    by (simp_all add: demo_sat_def)
  show ?thesis
    using identical_objects_positive_threshold [of 50 "demo_sat ''ISS'' ''A''"
      "demo_sat ''ISS 2'' ''A''" 1 15 4 2 demo_world _ "[]" "[]" "[]", OF _ lines _ _ ok]
    unfolding t n by (auto simp: steps_of_examples)
qed


section \<open>Stored distances and altitudes\<close>

lemma sat_position_of_SomeD:
  assumes "sat_position_of w t s = Some p"
  shows "\<exists>pd. get_current_position w s (Some t) = Inr (Some pd)
      \<and> p = \<lparr>sp_name = name s, sp_catalog = default_catalog s, sp_position = position pd,
               sp_altitude_km = altitude_km pd, sp_time = t\<rparr>"
proof (cases "get_current_position w s (Some t)")
  case (Inl e)
  with assms show ?thesis by (simp add: sat_position_of_def)
next
  case (Inr r)
  with assms show ?thesis by (cases r) (auto simp: sat_position_of_def)
qed

lemma positions_at_origin:
  "p \<in> set (positions_at w sats t) \<Longrightarrow>
   \<exists>s\<in>set sats. \<exists>pd. get_current_position w s (Some t) = Inr (Some pd)
      \<and> p = \<lparr>sp_name = name s, sp_catalog = default_catalog s, sp_position = position pd,
               sp_altitude_km = altitude_km pd, sp_time = t\<rparr>"
  unfolding positions_at_def set_map_filter by (blast dest: sat_position_of_SomeD)

lemma step_event_origin:
  assumes "e \<in> set (step_events thr st t (positions_at w sats t))"
  shows "\<exists>s1\<in>set sats. \<exists>s2\<in>set sats. \<exists>pd1 pd2.
           get_current_position w s1 (Some t) = Inr (Some pd1)
         \<and> get_current_position w s2 (Some t) = Inr (Some pd2)
         \<and> calculate_distance (position pd1) (position pd2) < thr
         \<and> e = \<lparr>object1 = name s1, object2 = name s2,
      distance_km = py_round (calculate_distance (position pd1) (position pd2)) 2,
      ev_time = t, time_from_now = t - st,
      altitude1_km = py_round (altitude_km pd1) 1,
      altitude2_km = py_round (altitude_km pd2) 1\<rparr>"
proof -
  define ps where "ps = positions_at w sats t"
  from assms obtain i j where ij: "i < j" "j < length ps"
    and pe: "pair_event thr st t ps (i, j) = Some e"
    unfolding set_step_events ps_def by blast
  have "ps ! i \<in> set ps" "ps ! j \<in> set ps" using ij by simp_all
  then obtain s1 pd1 s2 pd2 where
    s1: "s1 \<in> set sats" "get_current_position w s1 (Some t) = Inr (Some pd1)"
      "ps ! i = \<lparr>sp_name = name s1, sp_catalog = default_catalog s1, sp_position = position pd1,
               sp_altitude_km = altitude_km pd1, sp_time = t\<rparr>"
    and s2: "s2 \<in> set sats" "get_current_position w s2 (Some t) = Inr (Some pd2)"
      "ps ! j = \<lparr>sp_name = name s2, sp_catalog = default_catalog s2, sp_position = position pd2,
               sp_altitude_km = altitude_km pd2, sp_time = t\<rparr>"
    unfolding ps_def by (meson positions_at_origin)
  from pe have "calculate_distance (position pd1) (position pd2) < thr
     \<and> e = \<lparr>object1 = name s1, object2 = name s2,
      distance_km = py_round (calculate_distance (position pd1) (position pd2)) 2,
      ev_time = t, time_from_now = t - st,
      altitude1_km = py_round (altitude_km pd1) 1,
      altitude2_km = py_round (altitude_km pd2) 1\<rparr>"
    by (auto simp: pair_event_def Let_def s1(3) s2(3) split: if_splits)
  with s1(1,2) s2(1,2) show ?thesis by blast
qed

lemma find_conjunctions_Inr:
  "find_conjunctions w sats thr d sm = Inr out \<Longrightarrow>
   \<exists>steps. steps_of d sm = Inr steps \<and> out = sort_key distance_km (scan_events w sats thr sm steps)"
  by (auto simp: find_conjunctions_def split: sum.splits)

lemma py_round_upper: "py_round x n \<le> x + 1 / (2 * 10 ^ n)"
  using py_round_error [of x n] by (simp add: abs_le_iff)

text \<open>
  C2 (as it holds on the code). Every event of the output was emitted for two objects of
  the input whose Euclidean distance at the event time is strictly below the threshold.
  The stored distance is that distance rounded to two decimals, so it is strictly below
  the threshold plus 0.005, and it can be equal to the threshold.
\<close>

theorem stored_distance_bound:
  assumes "find_conjunctions w sats thr d sm = Inr out" "e \<in> set out"
  shows "\<exists>s1\<in>set sats. \<exists>s2\<in>set sats. \<exists>pd1 pd2.
           get_current_position w s1 (Some (ev_time e)) = Inr (Some pd1)
         \<and> get_current_position w s2 (Some (ev_time e)) = Inr (Some pd2)
         \<and> calculate_distance (position pd1) (position pd2) < thr
         \<and> distance_km e = py_round (calculate_distance (position pd1) (position pd2)) 2
         \<and> distance_km e < thr + 1/200"
proof -
  from assms obtain steps where "e \<in> set (scan_events w sats thr sm steps)"
    by (auto dest: find_conjunctions_Inr)
  then obtain t where "e \<in> set (step_events thr (utcnow w) t (positions_at w sats t))"
    unfolding set_scan_events by blast
  from step_event_origin [OF this] obtain s1 s2 pd1 pd2 where
    o: "s1 \<in> set sats" "s2 \<in> set sats"
      "get_current_position w s1 (Some t) = Inr (Some pd1)"
      "get_current_position w s2 (Some t) = Inr (Some pd2)"
      "calculate_distance (position pd1) (position pd2) < thr"
    and e: "e = \<lparr>object1 = name s1, object2 = name s2,
      distance_km = py_round (calculate_distance (position pd1) (position pd2)) 2,
      ev_time = t, time_from_now = t - utcnow w,
      altitude1_km = py_round (altitude_km pd1) 1,
      altitude2_km = py_round (altitude_km pd2) 1\<rparr>"
    by blast
  have "distance_km e < thr + 1/200"
    using py_round_upper [of "calculate_distance (position pd1) (position pd2)" 2] o(5)
    by (simp add: e)
  with o show ?thesis by (auto simp: e)
qed

text \<open>
  C10. Every event of the output stores the Euclidean distance of its two objects rounded
  to two decimals (a whole number of hundredths, at most 0.005 away from the distance) and
  the altitude of each object rounded to one decimal. The output is ascending in the
  stored distance, and the sort compares nothing else: the events of any one stored
  distance stand in the output in the order in which the scan emitted them.
\<close>

theorem stored_values_rounded:
  assumes "find_conjunctions w sats thr d sm = Inr out"
  shows "(\<forall>e\<in>set out. \<exists>s1\<in>set sats. \<exists>s2\<in>set sats. \<exists>pd1 pd2.
           get_current_position w s1 (Some (ev_time e)) = Inr (Some pd1)
         \<and> get_current_position w s2 (Some (ev_time e)) = Inr (Some pd2)
         \<and> object1 e = name s1 \<and> object2 e = name s2
         \<and> distance_km e = py_round (calculate_distance (position pd1) (position pd2)) 2
         \<and> altitude1_km e = py_round (altitude_km pd1) 1
         \<and> altitude2_km e = py_round (altitude_km pd2) 1
         \<and> \<bar>distance_km e - calculate_distance (position pd1) (position pd2)\<bar> \<le> 1/200
         \<and> (\<exists>c::int. distance_km e = of_int c / 100))
       \<and> sorted (map distance_km out)
       \<and> (\<exists>steps. steps_of d sm = Inr steps
            \<and> (\<forall>c. filter (\<lambda>e. distance_km e = c) out =
                     filter (\<lambda>e. distance_km e = c) (scan_events w sats thr sm steps)))"
proof -
  from assms obtain steps where steps: "steps_of d sm = Inr steps"
    and out: "out = sort_key distance_km (scan_events w sats thr sm steps)"
    by (auto dest: find_conjunctions_Inr)
  have "\<exists>s1\<in>set sats. \<exists>s2\<in>set sats. \<exists>pd1 pd2.
           get_current_position w s1 (Some (ev_time e)) = Inr (Some pd1)
         \<and> get_current_position w s2 (Some (ev_time e)) = Inr (Some pd2)
         \<and> object1 e = name s1 \<and> object2 e = name s2
         \<and> distance_km e = py_round (calculate_distance (position pd1) (position pd2)) 2
         \<and> altitude1_km e = py_round (altitude_km pd1) 1
         \<and> altitude2_km e = py_round (altitude_km pd2) 1
         \<and> \<bar>distance_km e - calculate_distance (position pd1) (position pd2)\<bar> \<le> 1/200
         \<and> (\<exists>c::int. distance_km e = of_int c / 100)" if "e \<in> set out" for e
  proof -
    from that obtain t where "e \<in> set (step_events thr (utcnow w) t (positions_at w sats t))"
      unfolding out set_sort set_scan_events by blast
    from step_event_origin [OF this] obtain s1 s2 pd1 pd2 where
      o: "s1 \<in> set sats" "s2 \<in> set sats"
        "get_current_position w s1 (Some t) = Inr (Some pd1)"
        "get_current_position w s2 (Some t) = Inr (Some pd2)"
      and e: "e = \<lparr>object1 = name s1, object2 = name s2,
        distance_km = py_round (calculate_distance (position pd1) (position pd2)) 2,
        ev_time = t, time_from_now = t - utcnow w,
        altitude1_km = py_round (altitude_km pd1) 1,
        altitude2_km = py_round (altitude_km pd2) 1\<rparr>"
      by blast
    have r: "\<bar>distance_km e - calculate_distance (position pd1) (position pd2)\<bar> \<le> 1/200"
      using py_round_error [of "calculate_distance (position pd1) (position pd2)" 2]
      by (simp add: e)
    have c: "\<exists>c::int. distance_km e = of_int c / 100"
      by (auto simp: e py_round_def)
    from o r c show ?thesis by (auto simp: e)
  qed
  moreover have "sorted (map distance_km out)" by (simp add: out)
  moreover have "filter (\<lambda>e. distance_km e = c) out =
      filter (\<lambda>e. distance_km e = c) (scan_events w sats thr sm steps)" for c
    unfolding out by (rule sort_key_stable)
  ultimately show ?thesis using steps by blast
qed

lemma demo_run_near_threshold:
  "find_conjunctions demo_world [demo_sat ''A'' ''A'', demo_sat ''D'' ''D''] 10 1 60 =
     Inr [\<lparr>object1 = ''A'', object2 = ''D'', distance_km = 10, ev_time = 0, time_from_now = 0,
           altitude1_km = - 6371, altitude2_km = - 6361\<rparr>]"
  by (simp add: find_conjunctions_def steps_of_examples scan_events_def step_events_def
      index_pairs_2 pair_event_def py_round_def rint_def demo_simps)

theorem stored_distance_reaches_threshold_counterexample:
  "find_conjunctions demo_world [demo_sat ''A'' ''A'', demo_sat ''D'' ''D''] 10 1 60 =
     Inr [\<lparr>object1 = ''A'', object2 = ''D'', distance_km = 10, ev_time = 0, time_from_now = 0,
           altitude1_km = - 6371, altitude2_km = - 6361\<rparr>]
   \<and> \<not> distance_km \<lparr>object1 = ''A'', object2 = ''D'', distance_km = 10, ev_time = 0,
           time_from_now = 0, altitude1_km = - 6371, altitude2_km = - 6361\<rparr> < 10"
  by (simp add: demo_run_near_threshold)

theorem stored_distance_bound_witness:
  "find_conjunctions demo_world [demo_sat ''A'' ''A'', demo_sat ''D'' ''D''] 10 1 60 =
     Inr [\<lparr>object1 = ''A'', object2 = ''D'', distance_km = 10, ev_time = 0, time_from_now = 0,
           altitude1_km = - 6371, altitude2_km = - 6361\<rparr>]
   \<and> distance_km \<lparr>object1 = ''A'', object2 = ''D'', distance_km = 10, ev_time = 0,
           time_from_now = 0, altitude1_km = - 6371, altitude2_km = - 6361\<rparr> < 10 + 1/200
   \<and> (\<exists>s1 s2 pd1 pd2.
           get_current_position demo_world s1 (Some 0) = Inr (Some pd1)
         \<and> get_current_position demo_world s2 (Some 0) = Inr (Some pd2)
         \<and> calculate_distance (position pd1) (position pd2) < 10
         \<and> (10::real) = py_round (calculate_distance (position pd1) (position pd2)) 2)"
  using stored_distance_bound [OF demo_run_near_threshold,
      of "\<lparr>object1 = ''A'', object2 = ''D'', distance_km = 10, ev_time = 0,
           time_from_now = 0, altitude1_km = - 6371, altitude2_km = - 6361\<rparr>"]
    demo_run_near_threshold
  by simp blast

theorem stored_values_rounded_witness:
  "find_conjunctions demo_world [demo_sat ''A'' ''A'', demo_sat ''D'' ''D''] 10 1 60 =
     Inr [\<lparr>object1 = ''A'', object2 = ''D'', distance_km = 10, ev_time = 0, time_from_now = 0,
           altitude1_km = - 6371, altitude2_km = - 6361\<rparr>]
   \<and> (\<exists>s1 s2 pd1 pd2.
           get_current_position demo_world s1 (Some 0) = Inr (Some pd1)
         \<and> get_current_position demo_world s2 (Some 0) = Inr (Some pd2)
         \<and> (10::real) = py_round (calculate_distance (position pd1) (position pd2)) 2
         \<and> (- 6371::real) = py_round (altitude_km pd1) 1
         \<and> (- 6361::real) = py_round (altitude_km pd2) 1)"
  using stored_values_rounded [OF demo_run_near_threshold] demo_run_near_threshold
  by simp blast

section \<open>Order of the output\<close>

lemma insort_key_lex:
  fixes f :: "'a \<Rightarrow> 'k::linorder" and g :: "'a \<Rightarrow> 't::linorder"
  assumes "sorted_wrt (\<lambda>a b. f a < f b \<or> (f a = f b \<and> g a \<le> g b)) ys"
    and "\<forall>y\<in>set ys. g x \<le> g y"
  shows "sorted_wrt (\<lambda>a b. f a < f b \<or> (f a = f b \<and> g a \<le> g b)) (insort_key f x ys)"
  using assms
proof (induction ys)
  case Nil
  then show ?case by simp
next
  case (Cons y ys)
  show ?case
  proof (cases "f x \<le> f y")
    case True
    have "f x < f z \<or> (f x = f z \<and> g x \<le> g z)" if "z \<in> set (y # ys)" for z
    proof -
      have "f y \<le> f z" using that Cons.prems(1) by auto
      with True have "f x \<le> f z" by simp
      moreover have "g x \<le> g z" using that Cons.prems(2) by auto
      ultimately show ?thesis by auto
    qed
    with True Cons.prems(1) show ?thesis by simp
  next
    case False
    then have "f y < f x" by simp
    moreover have "sorted_wrt (\<lambda>a b. f a < f b \<or> (f a = f b \<and> g a \<le> g b)) (insort_key f x ys)"
      using Cons by simp
    ultimately show ?thesis
      using False Cons.prems(1) by (auto simp: set_insort_key)
  qed
qed

lemma sort_key_lex:
  fixes f :: "'a \<Rightarrow> 'k::linorder" and g :: "'a \<Rightarrow> 't::linorder"
  assumes "sorted (map g xs)"
  shows "sorted_wrt (\<lambda>a b. f a < f b \<or> (f a = f b \<and> g a \<le> g b)) (sort_key f xs)"
  using assms
proof (induction xs)
  case Nil
  then show ?case by simp
next
  case (Cons x xs)
  then have "sorted_wrt (\<lambda>a b. f a < f b \<or> (f a = f b \<and> g a \<le> g b)) (sort_key f xs)"
    and "\<forall>y\<in>set (sort_key f xs). g x \<le> g y"
    by simp_all
  then show ?case
    using insort_key_lex [of f g "sort_key f xs" x] by simp
qed

lemma step_events_time: "e \<in> set (step_events thr st t ps) \<Longrightarrow> ev_time e = t"
  by (auto simp: set_step_events pair_event_def Let_def split: if_splits)

lemma sorted_concat_map:
  fixes T :: "nat \<Rightarrow> int"
  assumes "\<And>k e. e \<in> set (F k) \<Longrightarrow> g e = T k" "\<And>a b. a \<le> b \<Longrightarrow> T a \<le> T b" "sorted ks"
  shows "sorted (map g (concat (map F ks)))"
  using assms(3)
proof (induction ks)
  case Nil
  then show ?case by simp
next
  case (Cons k ks)
  have "sorted (map g (F k))"
    using assms(1) [of _ k] by (simp add: sorted_wrt_iff_nth_less sorted_map)
  moreover have "g a \<le> g b" if "a \<in> set (F k)" "k' \<in> set ks" "b \<in> set (F k')" for a b k'
    using that assms(1) [of a k] assms(1) [of b k'] assms(2) [of k k'] Cons.prems by auto
  ultimately show ?case
    using Cons by (auto simp: sorted_append)
qed

lemma scan_events_time_sorted:
  assumes "0 < sm"
  shows "sorted (map ev_time (scan_events w sats thr sm steps))"
  unfolding scan_events_def Let_def
proof (rule sorted_concat_map [where T = "time_of_step (utcnow w) sm"])
  show "sorted [0..<nat steps]" by simp
  show "time_of_step (utcnow w) sm a \<le> time_of_step (utcnow w) sm b" if "a \<le> b" for a b
    using that assms by (simp add: time_of_step_def timedelta_minutes_def)
qed (auto dest: step_events_time)

text \<open>
  C3 (as it holds on the code). With a step width greater than zero the output is
  ascending in the stored distance, and events of equal stored distance are ascending in
  event time. No comparison of the participant names takes place: events equal in stored
  distance and in time stand in the order in which the pair loops emitted them. The run
  of the specification's example, with emitted distances 12.3, 4.0 (both at the first
  time) and 4.0 (at the second time), returns 4.0 (first time), 4.0 (second time), 12.3.
\<close>

theorem output_order:
  assumes "0 < sm" "find_conjunctions w sats thr d sm = Inr out"
  shows "sorted_wrt dist_time_le out
     \<and> (\<exists>steps. steps_of d sm = Inr steps
          \<and> (\<forall>c t. filter (\<lambda>e. distance_km e = c \<and> ev_time e = t) out =
                 filter (\<lambda>e. distance_km e = c \<and> ev_time e = t)
                   (scan_events w sats thr sm steps)))"
proof -
  from assms(2) obtain steps where steps: "steps_of d sm = Inr steps"
    and out: "out = sort_key distance_km (scan_events w sats thr sm steps)"
    by (auto dest: find_conjunctions_Inr)
  have "sorted_wrt dist_time_le out"
    using sort_key_lex [OF scan_events_time_sorted [OF assms(1), of w sats thr steps],
        of distance_km]
    unfolding out dist_time_le_def [abs_def] by simp
  moreover have "filter (\<lambda>e. distance_km e = c \<and> ev_time e = t) out =
                 filter (\<lambda>e. distance_km e = c \<and> ev_time e = t)
                   (scan_events w sats thr sm steps)" for c t
  proof -
    have "filter (\<lambda>e. ev_time e = t) (filter (\<lambda>e. distance_km e = c) out) =
          filter (\<lambda>e. ev_time e = t) (filter (\<lambda>e. distance_km e = c)
            (scan_events w sats thr sm steps))"
      unfolding out sort_key_stable ..
    then show ?thesis by (simp add: conj_commute)
  qed
  ultimately show ?thesis using steps by blast
qed

lemmas run_simps = find_conjunctions_def steps_of_examples scan_events_def step_events_def
      index_pairs_2 index_pairs_3 pair_event_def py_round_def rint_def demo_simps

lemma demo_run_three_events:
  "find_conjunctions demo_world [demo_sat ''A'' ''A'', demo_sat ''B'' ''B'', demo_sat ''C'' ''C'']
      13 1 30 =
     Inr [\<lparr>object1 = ''A'', object2 = ''C'', distance_km = 4, ev_time = 0, time_from_now = 0,
           altitude1_km = - 6371, altitude2_km = - 6367\<rparr>,
          \<lparr>object1 = ''A'', object2 = ''B'', distance_km = 4, ev_time = 1800000000,
           time_from_now = 1800000000, altitude1_km = - 6371, altitude2_km = - 6367\<rparr>,
          \<lparr>object1 = ''A'', object2 = ''B'', distance_km = 123/10, ev_time = 0,
           time_from_now = 0, altitude1_km = - 6371, altitude2_km = - (63587/10)\<rparr>]"
  by (simp add: run_simps upt_rec numeral_2_eq_2)

lemma demo_run_same_place:
  "find_conjunctions demo_world [demo_sat ''B'' ''A'', demo_sat ''A'' ''A'', demo_sat ''C'' ''A'']
      50 1 60 =
     Inr [\<lparr>object1 = ''B'', object2 = ''A'', distance_km = 0, ev_time = 0, time_from_now = 0,
           altitude1_km = - 6371, altitude2_km = - 6371\<rparr>,
          \<lparr>object1 = ''B'', object2 = ''C'', distance_km = 0, ev_time = 0, time_from_now = 0,
           altitude1_km = - 6371, altitude2_km = - 6371\<rparr>,
          \<lparr>object1 = ''A'', object2 = ''C'', distance_km = 0, ev_time = 0, time_from_now = 0,
           altitude1_km = - 6371, altitude2_km = - 6371\<rparr>]"
  by (simp add: run_simps)

theorem no_lexical_tie_break_counterexample:
  "find_conjunctions demo_world [demo_sat ''B'' ''A'', demo_sat ''A'' ''A'', demo_sat ''C'' ''A'']
      50 1 60 =
     Inr [\<lparr>object1 = ''B'', object2 = ''A'', distance_km = 0, ev_time = 0, time_from_now = 0,
           altitude1_km = - 6371, altitude2_km = - 6371\<rparr>,
          \<lparr>object1 = ''B'', object2 = ''C'', distance_km = 0, ev_time = 0, time_from_now = 0,
           altitude1_km = - 6371, altitude2_km = - 6371\<rparr>,
          \<lparr>object1 = ''A'', object2 = ''C'', distance_km = 0, ev_time = 0, time_from_now = 0,
           altitude1_km = - 6371, altitude2_km = - 6371\<rparr>]
   \<and> \<not> sorted_wrt spec_event_le
         [\<lparr>object1 = ''B'', object2 = ''A'', distance_km = 0, ev_time = 0, time_from_now = 0,
           altitude1_km = - 6371, altitude2_km = - 6371\<rparr>,
          \<lparr>object1 = ''B'', object2 = ''C'', distance_km = 0, ev_time = 0, time_from_now = 0,
           altitude1_km = - 6371, altitude2_km = - 6371\<rparr>,
          \<lparr>object1 = ''A'', object2 = ''C'', distance_km = 0, ev_time = 0, time_from_now = 0,
           altitude1_km = - 6371, altitude2_km = - 6371\<rparr>]
   \<and> \<not> sorted_wrt (\<lambda>a b. spec_event_le b a)
         [\<lparr>object1 = ''B'', object2 = ''A'', distance_km = 0, ev_time = 0, time_from_now = 0,
           altitude1_km = - 6371, altitude2_km = - 6371\<rparr>,
          \<lparr>object1 = ''B'', object2 = ''C'', distance_km = 0, ev_time = 0, time_from_now = 0,
           altitude1_km = - 6371, altitude2_km = - 6371\<rparr>,
          \<lparr>object1 = ''A'', object2 = ''C'', distance_km = 0, ev_time = 0, time_from_now = 0,
           altitude1_km = - 6371, altitude2_km = - 6371\<rparr>]"
  by (simp add: demo_run_same_place spec_event_le_def ident_le_def)

theorem output_order_witness:
  "(0::int) < 30
   \<and> find_conjunctions demo_world
        [demo_sat ''A'' ''A'', demo_sat ''B'' ''B'', demo_sat ''C'' ''C''] 13 1 30 =
     Inr [\<lparr>object1 = ''A'', object2 = ''C'', distance_km = 4, ev_time = 0, time_from_now = 0,
           altitude1_km = - 6371, altitude2_km = - 6367\<rparr>,
          \<lparr>object1 = ''A'', object2 = ''B'', distance_km = 4, ev_time = 1800000000,
           time_from_now = 1800000000, altitude1_km = - 6371, altitude2_km = - 6367\<rparr>,
          \<lparr>object1 = ''A'', object2 = ''B'', distance_km = 123/10, ev_time = 0,
           time_from_now = 0, altitude1_km = - 6371, altitude2_km = - (63587/10)\<rparr>]
   \<and> sorted_wrt dist_time_le
        [\<lparr>object1 = ''A'', object2 = ''C'', distance_km = 4, ev_time = 0, time_from_now = 0,
           altitude1_km = - 6371, altitude2_km = - 6367\<rparr>,
          \<lparr>object1 = ''A'', object2 = ''B'', distance_km = 4, ev_time = 1800000000,
           time_from_now = 1800000000, altitude1_km = - 6371, altitude2_km = - 6367\<rparr>,
          \<lparr>object1 = ''A'', object2 = ''B'', distance_km = 123/10, ev_time = 0,
           time_from_now = 0, altitude1_km = - 6371, altitude2_km = - (63587/10)\<rparr>]"
proof -
  have pos: "(0::int) < 30" by simp
  show ?thesis
    using pos demo_run_three_events output_order [OF pos demo_run_three_events]
    by blast
qed

section \<open>The time grid and degenerate arguments\<close>

lemma trunc_div_pos: "0 \<le> a \<Longrightarrow> 0 < b \<Longrightarrow> trunc_div a b = a div b"
  by (cases "a = 0") (simp_all add: trunc_div_def)

lemma trunc_div_nonpos:
  "\<not> (0 < a \<and> 0 < b) \<Longrightarrow> \<not> (a < 0 \<and> b < 0) \<Longrightarrow> trunc_div a b \<le> 0"
proof -
  assume a: "\<not> (0 < a \<and> 0 < b)" "\<not> (a < 0 \<and> b < 0)"
  have "sgn a * sgn b \<le> 0"
    using a by (cases a "0::int" rule: linorder_cases; cases b "0::int" rule: linorder_cases) simp_all
  moreover have "0 \<le> \<bar>a\<bar> div \<bar>b\<bar>" by (simp add: div_int_pos_iff)
  ultimately show ?thesis
    unfolding trunc_div_def by (simp add: mult_le_0_iff)
qed

lemma sampled_times:
  "map snd (List.map_filter (\<lambda>i. sample_at w sat (T i)) xs) =
     filter (\<lambda>t. fst (sgp4 w sat t) = 0) (map T xs)"
  by (induction xs) (auto simp: sample_at_def split: prod.splits)

lemma scan_events_grid:
  "scan_events w sats thr sm steps =
     concat (map (\<lambda>t. step_events thr (utcnow w) t (positions_at w sats t))
       (map (time_of_step (utcnow w) sm) [0..<nat steps]))"
  by (simp add: scan_events_def Let_def comp_def)

text \<open>
  C4 (as it holds on the code). For a duration and a step width greater than zero the
  grid has floor(duration * 60 / step) times, not the ceiling: the times
  \<open>start + i * step\<close> for \<open>i\<close> below that number, starting at the start time when the number
  is not zero. The sampler records the grid times at which the propagator reports no
  error, and the screener scans the same grid from its own start time.
\<close>

theorem grid_is_floor:
  assumes "0 < d" "0 < sm"
  shows "time_grid start d sm =
           Inr (map (\<lambda>i. start + 60000000 * (int i * sm)) [0..<nat ((d * 60) div sm)])
       \<and> (twoline2rv w (line1 tle) (line2 tle) = Inr sat \<longrightarrow>
            (\<exists>tr. propagate_satellite w tle (Some start) d sm = Inr tr
               \<and> times tr = filter (\<lambda>t. fst (sgp4 w sat t) = 0)
                    (map (\<lambda>i. start + 60000000 * (int i * sm)) [0..<nat ((d * 60) div sm)])))
       \<and> find_conjunctions w sats thr d sm =
           Inr (sort_key distance_km
             (concat (map (\<lambda>t. step_events thr (utcnow w) t (positions_at w sats t))
                (map (\<lambda>i. utcnow w + 60000000 * (int i * sm)) [0..<nat ((d * 60) div sm)]))))"
proof -
  have steps: "steps_of d sm = Inr ((d * 60) div sm)"
    using assms by (simp add: steps_of_def trunc_div_pos)
  have tos: "time_of_step s sm = (\<lambda>i. s + 60000000 * (int i * sm))" for s
    by (simp add: time_of_step_def timedelta_minutes_def fun_eq_iff)
  have 1: "time_grid start d sm =
           Inr (map (\<lambda>i. start + 60000000 * (int i * sm)) [0..<nat ((d * 60) div sm)])"
    by (simp add: time_grid_def steps tos)
  have 2: "\<exists>tr. propagate_satellite w tle (Some start) d sm = Inr tr
               \<and> times tr = filter (\<lambda>t. fst (sgp4 w sat t) = 0)
                    (map (\<lambda>i. start + 60000000 * (int i * sm)) [0..<nat ((d * 60) div sm)])"
    if "twoline2rv w (line1 tle) (line2 tle) = Inr sat"
    using that by (simp add: propagate_satellite_def steps sampled_times tos)
  have 3: "find_conjunctions w sats thr d sm =
           Inr (sort_key distance_km
             (concat (map (\<lambda>t. step_events thr (utcnow w) t (positions_at w sats t))
                (map (\<lambda>i. utcnow w + 60000000 * (int i * sm)) [0..<nat ((d * 60) div sm)]))))"
    by (simp only: find_conjunctions_def steps scan_events_grid tos sum.case)
  from 1 2 3 show ?thesis by blast
qed

text \<open>
  C5 (as it holds on the code). For a record whose element lines parse: when the step width
  is not zero and the duration and the step width are neither both positive nor both
  negative, the sampler returns the empty trajectory; when the step width is zero the
  sampler fails with a division by zero.
\<close>

theorem degenerate_sampling:
  assumes "twoline2rv w (line1 tle) (line2 tle) = Inr sat"
  shows "(sm \<noteq> 0 \<and> \<not> (0 < d \<and> 0 < sm) \<and> \<not> (d < 0 \<and> sm < 0) \<longrightarrow>
            propagate_satellite w tle st d sm =
              Inr \<lparr>traj_name = name tle, traj_catalog = default_catalog tle,
                   positions = [], times = []\<rparr>)
       \<and> (sm = 0 \<longrightarrow> propagate_satellite w tle st d sm = Inl ZeroDivisionError)"
proof -
  have "trunc_div (d * 60) sm \<le> 0" if "\<not> (0 < d \<and> 0 < sm)" "\<not> (d < 0 \<and> sm < 0)"
    using that by (intro trunc_div_nonpos) auto
  then show ?thesis
    using assms by (auto simp: propagate_satellite_def steps_of_def)
qed

lemma upt_8: "[0..<8] = [0, 1, 2, 3, 4, 5, 6, 7]" "[0..<4] = [0, 1, 2, 3]" "[0..<2] = [0, 1]"
  by (simp_all add: upt_rec)

theorem grid_not_ceiling_counterexample:
  "time_grid 0 1 7 =
     Inr [0, 420000000, 840000000, 1260000000, 1680000000, 2100000000, 2520000000, 2940000000]
   \<and> propagate_satellite demo_world (demo_sat ''A'' ''A'') (Some 0) 1 7 =
     Inr \<lparr>traj_name = ''A'', traj_catalog = ''unknown'',
          positions = [(0, 0, 0), (0, 0, 0), (0, 0, 0), (0, 0, 0),
                       (0, 0, 0), (0, 0, 0), (0, 0, 0), (0, 0, 0)],
          times = [0, 420000000, 840000000, 1260000000, 1680000000, 2100000000, 2520000000,
                   2940000000]\<rparr>
   \<and> \<lceil>(1 * 60) / 7 :: real\<rceil> = 9"
  by (simp add: time_grid_def propagate_satellite_def sample_at_def steps_of_examples upt_8
      demo_simps)

theorem grid_is_floor_witness:
  "(0::int) < 1 \<and> (0::int) < 15
   \<and> time_grid 0 1 15 = Inr [0, 900000000, 1800000000, 2700000000]"
  using grid_is_floor [of 1 15 0 demo_world "demo_sat ''A'' ''A''" "''A''" "[]" 0]
  by (simp add: upt_8)

theorem degenerate_sampling_counterexample:
  "propagate_satellite demo_world (demo_sat ''A'' ''A'') None 24 0 = Inl ZeroDivisionError
   \<and> propagate_satellite demo_world (demo_sat ''A'' ''A'') (Some 0) (- 1) (- 30) =
       Inr \<lparr>traj_name = ''A'', traj_catalog = ''unknown'',
            positions = [(0, 0, 0), (0, 0, 0)], times = [0, - 1800000000]\<rparr>
   \<and> propagate_satellite demo_world (demo_sat ''bad'' []) None 0 10 = Inl ValueError"
  by (simp add: propagate_satellite_def sample_at_def steps_of_def trunc_div_def upt_8 demo_simps)

theorem degenerate_sampling_witness:
  "twoline2rv demo_world (line1 (demo_sat ''A'' ''A'')) (line2 (demo_sat ''A'' ''A'')) = Inr ''A''
   \<and> propagate_satellite demo_world (demo_sat ''A'' ''A'') None 0 10 =
       Inr \<lparr>traj_name = ''A'', traj_catalog = ''unknown'', positions = [], times = []\<rparr>
   \<and> propagate_satellite demo_world (demo_sat ''A'' ''A'') None (- 3) 10 =
       Inr \<lparr>traj_name = ''A'', traj_catalog = ''unknown'', positions = [], times = []\<rparr>
   \<and> propagate_satellite demo_world (demo_sat ''A'' ''A'') None 24 0 = Inl ZeroDivisionError"
proof -
  have p: "twoline2rv demo_world (line1 (demo_sat ''A'' ''A'')) (line2 (demo_sat ''A'' ''A''))
      = Inr ''A''"
    by (simp add: demo_world_def demo_sat_def)
  have n: "name (demo_sat ''A'' ''A'') = ''A''" "default_catalog (demo_sat ''A'' ''A'') = ''unknown''"
    by (simp_all add: demo_sat_def default_catalog_def)
  show ?thesis
    using p degenerate_sampling [OF p, of 10 0 None] degenerate_sampling [OF p, of 10 "- 3" None]
      degenerate_sampling [OF p, of 0 24 None]
    by (simp add: n)
qed

section \<open>Pairs of objects\<close>

lemma length_map_filter_le: "length (List.map_filter f xs) \<le> length xs"
  by (induction xs) (auto split: option.splits)

lemma distinct_map_map_filter:
  assumes "distinct xs"
    and "\<And>x y a b. x \<in> set xs \<Longrightarrow> y \<in> set xs \<Longrightarrow> g x = Some a \<Longrightarrow> g y = Some b \<Longrightarrow>
           key a = key b \<Longrightarrow> x = y"
  shows "distinct (map key (List.map_filter g xs))"
  using assms
proof (induction xs)
  case Nil
  then show ?case by simp
next
  case (Cons x xs)
  have ih: "distinct (map key (List.map_filter g xs))"
    using Cons by simp
  show ?case
  proof (cases "g x")
    case None
    with ih show ?thesis by simp
  next
    case (Some a)
    have "key a \<notin> key ` set (List.map_filter g xs)"
    proof
      assume "key a \<in> key ` set (List.map_filter g xs)"
      then obtain y b where "y \<in> set xs" "g y = Some b" "key a = key b"
        by (auto simp: set_map_filter)
      with Cons.prems(2) [of x y a b] Some have "x = y" by simp
      with \<open>y \<in> set xs\<close> Cons.prems(1) show False by simp
    qed
    with ih Some show ?thesis by simp
  qed
qed

lemma positions_at_names:
  "sp_name ` set (positions_at w sats t) \<subseteq> name ` set sats"
  by (auto dest!: positions_at_origin)

lemma distinct_position_names:
  "distinct (map name sats) \<Longrightarrow> distinct (map sp_name (positions_at w sats t))"
proof (induction sats)
  case Nil
  then show ?case by (simp add: positions_at_def)
next
  case (Cons s sats)
  then have ih: "distinct (map sp_name (positions_at w sats t))" and
    new: "name s \<notin> name ` set sats" by simp_all
  show ?case
  proof (cases "sat_position_of w t s")
    case None
    with ih show ?thesis by (simp add: positions_at_Cons)
  next
    case (Some p)
    then have "sp_name p = name s" by (auto dest: sat_position_of_SomeD)
    with new positions_at_names [of w sats t] have "sp_name p \<notin> sp_name ` set (positions_at w sats t)"
      by auto
    with ih Some show ?thesis by (simp add: positions_at_Cons)
  qed
qed

lemma pair_event_names:
  "pair_event thr st t ps (i, j) = Some e \<Longrightarrow>
   object1 e = sp_name (ps ! i) \<and> object2 e = sp_name (ps ! j) \<and> ev_time e = t"
  by (auto simp: pair_event_def Let_def split: if_splits)

lemma step_events_distinct_pairs:
  assumes "distinct (map sp_name ps)"
  shows "distinct (map (\<lambda>e. {object1 e, object2 e}) (step_events thr st t ps))"
  unfolding step_events_def
proof (rule distinct_map_map_filter [OF distinct_index_pairs])
  fix x y a b
  assume x: "x \<in> set (index_pairs (length ps))" and y: "y \<in> set (index_pairs (length ps))"
    and a: "pair_event thr st t ps x = Some a" and b: "pair_event thr st t ps y = Some b"
    and k: "{object1 a, object2 a} = {object1 b, object2 b}"
  obtain i j where xij: "x = (i, j)" by (cases x)
  obtain i' j' where yij: "y = (i', j')" by (cases y)
  from x y have r: "i < j" "j < length ps" "i' < j'" "j' < length ps"
    by (simp_all add: set_index_pairs xij yij)
  have eq: "sp_name (ps ! u) = sp_name (ps ! v) \<longleftrightarrow> u = v"
    if "u < length ps" "v < length ps" for u v
    using assms that nth_eq_iff_index_eq [of "map sp_name ps" u v] by simp
  from k pair_event_names [OF a [unfolded xij]] pair_event_names [OF b [unfolded yij]]
  have "{sp_name (ps ! i), sp_name (ps ! j)} = {sp_name (ps ! i'), sp_name (ps ! j')}"
    by simp
  then have "(sp_name (ps ! i) = sp_name (ps ! i') \<and> sp_name (ps ! j) = sp_name (ps ! j'))
      \<or> (sp_name (ps ! i) = sp_name (ps ! j') \<and> sp_name (ps ! j) = sp_name (ps ! i'))"
    by (auto simp: doubleton_eq_iff)
  then have "(i = i' \<and> j = j') \<or> (i = j' \<and> j = i')"
    using r by (simp add: eq)
  with r show "x = y" by (auto simp: xij yij)
qed

lemma distinct_concat_tagged:
  assumes "distinct ks" "inj_on T (set ks)"
    and "\<And>k e. e \<in> set (F k) \<Longrightarrow> tg e = T k"
    and "\<And>k. distinct (map u (F k))"
  shows "distinct (map (\<lambda>e. (tg e, u e)) (concat (map F ks)))"
  using assms(1,2)
proof (induction ks)
  case Nil
  then show ?case by simp
next
  case (Cons k ks)
  have one: "distinct (map (\<lambda>e. (tg e, u e)) (F k))"
    using assms(4) [of k] by (auto simp: distinct_map inj_on_def)
  have "tg a \<noteq> tg b" if "a \<in> set (F k)" "k' \<in> set ks" "b \<in> set (F k')" for a b k'
  proof -
    have "k \<noteq> k'" using Cons.prems(1) that(2) by auto
    then have "T k \<noteq> T k'" using Cons.prems(2) that(2) by (auto simp: inj_on_def)
    then show ?thesis using assms(3) [OF that(1)] assms(3) [OF that(3)] by simp
  qed
  then have "(\<lambda>e. (tg e, u e)) ` set (F k) \<inter> (\<lambda>e. (tg e, u e)) ` (\<Union>k'\<in>set ks. set (F k')) = {}"
    by fastforce
  with one Cons show ?case by simp
qed

lemma scan_events_distinct:
  assumes "distinct (map name sats)" "sm \<noteq> 0"
  shows "distinct (map (\<lambda>e. (ev_time e, {object1 e, object2 e}))
           (scan_events w sats thr sm steps))"
  unfolding scan_events_def Let_def
proof (rule distinct_concat_tagged [where T = "time_of_step (utcnow w) sm"])
  show "distinct [0..<nat steps]" by simp
  show "inj_on (time_of_step (utcnow w) sm) (set [0..<nat steps])"
    using assms(2) by (simp add: inj_on_def time_of_step_def timedelta_minutes_def)
  show "distinct (map (\<lambda>e. {object1 e, object2 e})
      (step_events thr (utcnow w) (time_of_step (utcnow w) sm k)
        (positions_at w sats (time_of_step (utcnow w) sm k))))" for k
    by (rule step_events_distinct_pairs [OF distinct_position_names [OF assms(1)]])
qed (auto dest: step_events_time)

lemma distinct_map_sort_key:
  "distinct (map key (sort_key f xs)) = distinct (map key xs)"
  by (simp add: distinct_map)

lemma length_index_pairs: "2 * length (index_pairs n) = n * (n - 1)"
proof -
  have "length (index_pairs n) = (\<Sum>i<n. n - Suc i)"
    by (simp add: index_pairs_def length_concat comp_def interv_sum_list_conv_sum_set_nat
        atLeast0LessThan)
  also have "\<dots> = (\<Sum>i<n. i)"
    by (rule sum.nat_diff_reindex)
  also have "2 * \<dots> = n * (n - 1)"
    by (induction n) (auto simp: algebra_simps)
  finally show ?thesis by simp
qed


lemma filter_concat_tagged:
  assumes "distinct ks" "inj_on T (set ks)"
    and "\<And>k e. e \<in> set (F k) \<Longrightarrow> tg e = T k"
    and "\<And>k. length (F k) \<le> B"
  shows "length (filter (\<lambda>e. tg e = t) (concat (map F ks))) \<le> B
       \<and> ((\<forall>k\<in>set ks. T k \<noteq> t) \<longrightarrow> filter (\<lambda>e. tg e = t) (concat (map F ks)) = [])"
  using assms(1,2)
proof (induction ks)
  case Nil
  then show ?case by simp
next
  case (Cons k ks)
  then have ih: "length (filter (\<lambda>e. tg e = t) (concat (map F ks))) \<le> B"
    "(\<forall>k\<in>set ks. T k \<noteq> t) \<Longrightarrow> filter (\<lambda>e. tg e = t) (concat (map F ks)) = []"
    by simp_all
  show ?case
  proof (cases "T k = t")
    case True
    have "\<forall>k'\<in>set ks. T k' \<noteq> t"
      using Cons.prems True by (auto simp: inj_on_def)
    then have "filter (\<lambda>e. tg e = t) (concat (map F ks)) = []" by (rule ih(2))
    moreover have "length (filter (\<lambda>e. tg e = t) (F k)) \<le> B"
      using assms(4) [of k] length_filter_le [of "\<lambda>e. tg e = t" "F k"] by linarith
    ultimately show ?thesis using True by simp
  next
    case False
    then have "filter (\<lambda>e. tg e = t) (F k) = []"
      using assms(3) [of _ k] by (auto simp: filter_empty_conv)
    with ih False show ?thesis by simp
  qed
qed

lemma length_positions_at: "length (positions_at w sats t) \<le> length sats"
  by (simp add: positions_at_def length_map_filter_le)

lemma step_events_count:
  "2 * length (step_events thr st t ps) \<le> length ps * (length ps - 1)"
  using length_map_filter_le [of "pair_event thr st t ps" "index_pairs (length ps)"]
    length_index_pairs [of "length ps"]
  by (simp add: step_events_def)

lemma pairs_mono: "(m::nat) \<le> n \<Longrightarrow> m * (m - 1) \<le> n * (n - 1)"
  by (intro mult_le_mono) simp_all

lemma scan_events_count_at:
  assumes "sm \<noteq> 0"
  shows "2 * length (filter (\<lambda>e. ev_time e = t) (scan_events w sats thr sm steps))
           \<le> length sats * (length sats - 1)"
proof -
  have b: "length (step_events thr st t' (positions_at w sats t'))
        \<le> (length sats * (length sats - 1)) div 2" for st t'
    using step_events_count [of thr st t' "positions_at w sats t'"]
      pairs_mono [OF length_positions_at [of w sats t']]
    by linarith
  have "length (filter (\<lambda>e. ev_time e = t) (scan_events w sats thr sm steps))
        \<le> (length sats * (length sats - 1)) div 2"
    unfolding scan_events_def Let_def
  proof (rule filter_concat_tagged [where T = "time_of_step (utcnow w) sm", THEN conjunct1])
    show "distinct [0..<nat steps]" by simp
    show "inj_on (time_of_step (utcnow w) sm) (set [0..<nat steps])"
      using assms by (simp add: inj_on_def time_of_step_def timedelta_minutes_def)
    show "length (step_events thr (utcnow w) (time_of_step (utcnow w) sm k)
            (positions_at w sats (time_of_step (utcnow w) sm k)))
         \<le> length sats * (length sats - 1) div 2" for k
      by (rule b)
  qed (auto dest: step_events_time)
  then show ?thesis by linarith
qed

text \<open>
  C9 (as it holds on the code). At every step the pair loops visit each unordered pair of
  the list entries that propagated exactly once: the visited index pairs are distinct and
  are exactly the pairs \<open>(i, j)\<close> with \<open>i < j\<close>, so never both \<open>(i, j)\<close> and \<open>(j, i)\<close>. A
  visited pair gives at most one event, so the events of any one time are at most as many
  as the unordered pairs of the input. An event names its objects only by their names,
  and the code does not compare names: when the names of the input are pairwise distinct,
  no two events of the output have the same time and the same unordered pair of names;
  when two entries share a name, the output can hold an (A, B) and a (B, A) event at one
  time.
\<close>

theorem pairs_once:
  "distinct (index_pairs n)
   \<and> set (index_pairs n) = {(i, j). i < j \<and> j < n}
   \<and> length (step_events thr st t ps) \<le> length (index_pairs (length ps))
   \<and> (find_conjunctions w sats thr d sm = Inr out \<longrightarrow>
        2 * length (filter (\<lambda>e. ev_time e = t) out) \<le> length sats * (length sats - 1))
   \<and> (distinct (map name sats) \<longrightarrow> find_conjunctions w sats thr d sm = Inr out \<longrightarrow>
        distinct (map (\<lambda>e. (ev_time e, {object1 e, object2 e})) out))"
proof -
  have run: "\<exists>steps. sm \<noteq> 0 \<and> out = sort_key distance_km (scan_events w sats thr sm steps)"
    if "find_conjunctions w sats thr d sm = Inr out"
    using that by (auto simp: find_conjunctions_def steps_of_def split: if_splits)
  have 1: "distinct (map (\<lambda>e. (ev_time e, {object1 e, object2 e})) out)"
    if names: "distinct (map name sats)" and r: "find_conjunctions w sats thr d sm = Inr out"
  proof -
    from run [OF r] obtain steps where "sm \<noteq> 0"
      and out: "out = sort_key distance_km (scan_events w sats thr sm steps)" by blast
    from scan_events_distinct [OF names this(1)] show ?thesis
      unfolding out distinct_map_sort_key .
  qed
  have 2: "2 * length (filter (\<lambda>e. ev_time e = t) out) \<le> length sats * (length sats - 1)"
    if r: "find_conjunctions w sats thr d sm = Inr out"
  proof -
    from run [OF r] obtain steps where "sm \<noteq> 0"
      and out: "out = sort_key distance_km (scan_events w sats thr sm steps)" by blast
    from scan_events_count_at [OF this(1)] show ?thesis
      unfolding out filter_sort length_sort .
  qed
  from 1 2 show ?thesis
    by (simp add: distinct_index_pairs set_index_pairs step_events_def length_map_filter_le)
qed

theorem pairs_once_witness:
  "distinct (map name [demo_sat ''B'' ''A'', demo_sat ''A'' ''A'', demo_sat ''C'' ''A''])
   \<and> find_conjunctions demo_world
        [demo_sat ''B'' ''A'', demo_sat ''A'' ''A'', demo_sat ''C'' ''A''] 50 1 60 =
     Inr [\<lparr>object1 = ''B'', object2 = ''A'', distance_km = 0, ev_time = 0, time_from_now = 0,
           altitude1_km = - 6371, altitude2_km = - 6371\<rparr>,
          \<lparr>object1 = ''B'', object2 = ''C'', distance_km = 0, ev_time = 0, time_from_now = 0,
           altitude1_km = - 6371, altitude2_km = - 6371\<rparr>,
          \<lparr>object1 = ''A'', object2 = ''C'', distance_km = 0, ev_time = 0, time_from_now = 0,
           altitude1_km = - 6371, altitude2_km = - 6371\<rparr>]
   \<and> distinct (map (\<lambda>e. (ev_time e, {object1 e, object2 e}))
         [\<lparr>object1 = ''B'', object2 = ''A'', distance_km = 0, ev_time = 0, time_from_now = 0,
           altitude1_km = - 6371, altitude2_km = - 6371\<rparr>,
          \<lparr>object1 = ''B'', object2 = ''C'', distance_km = 0, ev_time = 0, time_from_now = 0,
           altitude1_km = - 6371, altitude2_km = - 6371\<rparr>,
          \<lparr>object1 = ''A'', object2 = ''C'', distance_km = 0, ev_time = 0, time_from_now = 0,
           altitude1_km = - 6371, altitude2_km = - 6371\<rparr>])
   \<and> distinct (index_pairs 3)"
proof -
  have names: "distinct (map name [demo_sat ''B'' ''A'', demo_sat ''A'' ''A'', demo_sat ''C'' ''A''])"
    by (simp add: demo_sat_def)
  show ?thesis
    using names demo_run_same_place
      pairs_once [of 3 50 0 0 "[]" demo_world
        "[demo_sat ''B'' ''A'', demo_sat ''A'' ''A'', demo_sat ''C'' ''A'']" 1 60]
    by blast
qed

text \<open>
  Two different records named A, with B between them in the list: the run returns an
  (A, B) event and a (B, A) event at the same time.
\<close>

theorem repeated_name_double_pair_counterexample:
  "find_conjunctions demo_world
      [demo_sat ''A'' ''A'', demo_sat ''B'' ''A'', demo_sat ''A'' ''D''] 50 1 60 =
     Inr [\<lparr>object1 = ''A'', object2 = ''B'', distance_km = 0, ev_time = 0, time_from_now = 0,
           altitude1_km = - 6371, altitude2_km = - 6371\<rparr>,
          \<lparr>object1 = ''A'', object2 = ''A'', distance_km = 10, ev_time = 0, time_from_now = 0,
           altitude1_km = - 6371, altitude2_km = - 6361\<rparr>,
          \<lparr>object1 = ''B'', object2 = ''A'', distance_km = 10, ev_time = 0, time_from_now = 0,
           altitude1_km = - 6371, altitude2_km = - 6361\<rparr>]
   \<and> demo_sat ''A'' ''A'' \<noteq> demo_sat ''A'' ''D''
   \<and> \<not> distinct (map (\<lambda>e. (ev_time e, {object1 e, object2 e}))
         [\<lparr>object1 = ''A'', object2 = ''B'', distance_km = 0, ev_time = 0, time_from_now = 0,
           altitude1_km = - 6371, altitude2_km = - 6371\<rparr>,
          \<lparr>object1 = ''A'', object2 = ''A'', distance_km = 10, ev_time = 0, time_from_now = 0,
           altitude1_km = - 6371, altitude2_km = - 6361\<rparr>,
          \<lparr>object1 = ''B'', object2 = ''A'', distance_km = 10, ev_time = 0, time_from_now = 0,
           altitude1_km = - 6371, altitude2_km = - 6361\<rparr>])"
  by (simp add: run_simps insert_commute)

end
